theory Spec2Isabelle
  imports Complex_Main
begin

section \<open>Data model of the dashboard client (lib/supabase-client.ts)\<close>

text \<open>
  The three row types declared in \<^verbatim>\<open>lib/supabase-client.ts\<close>. A ticket is a
  \<^verbatim>\<open>BIGINT\<close> key of the store and is modelled as an integer; the
  \<^verbatim>\<open>DECIMAL\<close> columns are modelled as rationals; a column typed
  \<^verbatim>\<open>T | null\<close> is an option. The field \<^verbatim>\<open>id\<close> is written \<open>id_\<close>,
  since \<open>id\<close> is the identity function of HOL; the status of the bridge, a union of
  string literals, is a string.
\<close>

type_synonym ticket = int
type_synonym decimal = rat
type_synonym timestamp = string

record Position =
  ticket :: ticket
  symbol :: string
  type :: int
  volume :: decimal
  price_open :: decimal
  price_current :: "decimal option"
  profit :: "decimal option"
  swap :: "decimal option"
  commission :: "decimal option"
  comment :: "string option"
  updated_at :: timestamp

datatype action = OPEN | CLOSE

record Trade =
  id_ :: int
  ticket :: ticket
  action :: action
  symbol :: string
  type :: int
  volume :: decimal
  price :: decimal
  profit :: "decimal option"
  swap :: "decimal option"
  commission :: "decimal option"
  comment :: "string option"
  timestamp :: timestamp

record BridgeStatus =
  id_ :: int
  last_seen :: timestamp
  status :: string
  positions_count :: int
  error_message :: "string option"
  updated_at :: timestamp

section \<open>Query helpers\<close>

text \<open>
  A query of the client library resolves to an object \<^verbatim>\<open>{ data, error }\<close>; either
  component may be \<^verbatim>\<open>null\<close>. The helpers only look at that object, so it is the
  argument of the model (the query itself, with its ordering and its limit, is the
  store's). A non-null \<^verbatim>\<open>error\<close> object is truthy, and an array
  (even the empty one) is truthy, so \<^verbatim>\<open>data || []\<close> replaces exactly a missing
  \<^verbatim>\<open>data\<close>.
\<close>

record 'a query_outcome =
  data :: "'a option"
  error :: "string option"

definition fetchPositions :: "Position list query_outcome \<Rightarrow> Position list" where
  "fetchPositions r =
     (if error r \<noteq> None then []
      else (case data r of None \<Rightarrow> [] | Some d \<Rightarrow> d))"

definition fetchRecentTrades :: "Trade list query_outcome \<Rightarrow> Trade list" where
  "fetchRecentTrades r =
     (if error r \<noteq> None then []
      else (case data r of None \<Rightarrow> [] | Some d \<Rightarrow> d))"

definition fetchBridgeStatus :: "BridgeStatus query_outcome \<Rightarrow> BridgeStatus option" where
  "fetchBridgeStatus r = (if error r \<noteq> None then None else data r)"

section \<open>Realtime handlers of the hooks\<close>

text \<open>
  The payload of a row-level change: the event type and the new and the old row. The
  handlers read \<^verbatim>\<open>eventType\<close>, \<^verbatim>\<open>new\<close> and \<^verbatim>\<open>old\<close> only.
\<close>

record 'r payload =
  eventType :: string
  new :: 'r
  old :: 'r

text \<open>
  \<^verbatim>\<open>Array.prototype.slice(start, end)\<close> on integer arguments: a negative index counts
  from the end of the array, and both indices are clamped to the array.
\<close>

definition slice :: "'a list \<Rightarrow> int \<Rightarrow> int \<Rightarrow> 'a list" where
  "slice xs start fin =
     (let len = int (length xs);
          k = (if start < 0 then max (len + start) 0 else min start len);
          final = (if fin < 0 then max (len + fin) 0 else min fin len);
          count = max (final - k) 0
      in take (nat count) (drop (nat k) xs))"

text \<open>\<^verbatim>\<open>handleRealtimeUpdate\<close> of \<^verbatim>\<open>useLiveTrades(limit)\<close>, as the state update
  \<^verbatim>\<open>setTrades\<close> receives it.\<close>

definition handleRealtimeUpdate_trades :: "int \<Rightarrow> Trade list \<Rightarrow> Trade payload \<Rightarrow> Trade list" where
  "handleRealtimeUpdate_trades limit prevTrades p =
     (if eventType p = ''INSERT''
      then (let newTrades = new p # prevTrades in slice newTrades 0 limit)
      else prevTrades)"

text \<open>\<^verbatim>\<open>handleRealtimeUpdate\<close> of \<^verbatim>\<open>useLivePositions\<close>: the \<^verbatim>\<open>switch\<close> on the
  event type inside \<^verbatim>\<open>setPositions\<close>.\<close>

definition handleRealtimeUpdate_positions :: "Position list \<Rightarrow> Position payload \<Rightarrow> Position list" where
  "handleRealtimeUpdate_positions prevPositions p =
     (if eventType p = ''INSERT'' then
        (let existsInsert = list_ex (\<lambda>q. Position.ticket q = Position.ticket (new p)) prevPositions
         in if \<not> existsInsert then prevPositions @ [new p] else prevPositions)
      else if eventType p = ''UPDATE'' then
        map (\<lambda>pos. if Position.ticket pos = Position.ticket (new p) then new p else pos) prevPositions
      else if eventType p = ''DELETE'' then
        filter (\<lambda>pos. Position.ticket pos \<noteq> Position.ticket (old p)) prevPositions
      else prevPositions)"

text \<open>Sample rows, used to evaluate the definitions on concrete inputs.\<close>

definition sample_position :: "ticket \<Rightarrow> Position" where
  "sample_position t =
     \<lparr>Position.ticket = t, symbol = ''EURUSD'', type = 0, volume = 1, price_open = 1,
      price_current = None, profit = None, swap = None, commission = None, comment = None,
      updated_at = ''2025-01-01T00:00:00Z''\<rparr>"

definition sample_trade :: "int \<Rightarrow> ticket \<Rightarrow> action \<Rightarrow> timestamp \<Rightarrow> Trade" where
  "sample_trade i t a ts =
     \<lparr>Trade.id_ = i, ticket = t, action = a, symbol = ''EURUSD'', type = 0, volume = 1,
      price = 1, profit = None, swap = None, commission = None, comment = None,
      timestamp = ts\<rparr>"

section \<open>The store (sql/schema.sql)\<close>

text \<open>
  The tables \<^verbatim>\<open>positions\<close> (primary key \<^verbatim>\<open>ticket\<close>) and \<^verbatim>\<open>trades\<close>
  (append-only, key \<^verbatim>\<open>id BIGSERIAL\<close>). A failed call is an error value:
  \<open>unique_violation\<close> is the rejection of a row by a unique index, \<open>Exception\<close> any
  other failure of a call to the terminal or to the store.
\<close>

datatype error = unique_violation | Exception string

record store =
  positions_table :: "ticket \<rightharpoonup> Position"
  trades_table :: "Trade list"
  trades_id_seq :: int

text \<open>
  The two indexes of the schema on the trade key. \<^verbatim>\<open>idx_trades_ticket_action\<close> is
  created with \<^verbatim>\<open>CREATE INDEX\<close>: it constrains nothing. \<^verbatim>\<open>idx_trades_unique\<close> is
  created with \<^verbatim>\<open>CREATE UNIQUE INDEX\<close> on \<^verbatim>\<open>(ticket, action, timestamp)\<close>: the
  store rejects a row whose triple is already in the table. (The source has two
  versions of the schema; the model follows the one that declares the unique index,
  the other one declares no unique index on trades at all. The timestamp of a row is
  never null, as in the \<^verbatim>\<open>Trade\<close> interface of the client.)
\<close>

definition idx_trades_ticket_action :: "Trade \<Rightarrow> ticket \<times> action" where
  "idx_trades_ticket_action r = (Trade.ticket r, action r)"

definition idx_trades_unique :: "Trade \<Rightarrow> ticket \<times> action \<times> timestamp" where
  "idx_trades_unique r = (Trade.ticket r, action r, timestamp r)"

text \<open>
  \<^verbatim>\<open>INSERT INTO trades\<close>: the row gets its \<^verbatim>\<open>id\<close> from the sequence (the
  \<open>id_\<close> of the argument is ignored) and is appended, unless the unique index rejects
  it; a rejected insert leaves the rows as they were.
\<close>

definition insert_trade :: "Trade \<Rightarrow> store \<Rightarrow> error + store" where
  "insert_trade r st =
     (if idx_trades_unique r \<in> set (map idx_trades_unique (trades_table st))
      then Inl unique_violation
      else Inr (st\<lparr>trades_table := trades_table st @ [r\<lparr>Trade.id_ := trades_id_seq st\<rparr>],
                   trades_id_seq := trades_id_seq st + 1\<rparr>))"

datatype outcome = inserted | duplicate

text \<open>
  Modelled from the spec: \<^verbatim>\<open>insertTradeIfAbsent\<close> of the Sink Writer is not in the
  source (the sketch only declares \<^verbatim>\<open>append_trade(trade_data) -> None\<close>). Following
  the spec, the call may fail (the first argument is the failure of the call, if
  any), and a row rejected by the uniqueness of the sink is the outcome
  \<open>duplicate\<close>, a success that stores nothing. The uniqueness itself is not taken from
  the spec: it is the unique index of the schema, through \<open>insert_trade\<close>.
\<close>

definition insertTradeIfAbsent :: "error option \<Rightarrow> Trade \<Rightarrow> store \<Rightarrow> error + (outcome \<times> store)" where
  "insertTradeIfAbsent fault ev st =
     (case fault of
        Some e \<Rightarrow> Inl e
      | None \<Rightarrow>
          (case insert_trade ev st of
             Inl unique_violation \<Rightarrow> Inr (duplicate, st)
           | Inl (Exception m) \<Rightarrow> Inl (Exception m)
           | Inr st' \<Rightarrow> Inr (inserted, st')))"

text \<open>
  Modelled from the spec: the body of \<^verbatim>\<open>upsert_positions\<close> is not in the source.
  Following the spec (\<^verbatim>\<open>upsertPositions\<close>: last write wins per ticket) and the
  schema's comment (``upserted by ticket''), every snapshot replaces the row of its
  ticket; a failed call changes nothing.
\<close>

definition upsert_positions :: "error option \<Rightarrow> Position list \<Rightarrow> store \<Rightarrow> error + store" where
  "upsert_positions fault ps st =
     (case fault of
        Some e \<Rightarrow> Inl e
      | None \<Rightarrow> Inr (st\<lparr>positions_table := fold (\<lambda>p m. m(Position.ticket p \<mapsto> p)) ps (positions_table st)\<rparr>))"

section \<open>The bridge loop (main.py of the implementation plan)\<close>

text \<open>
  What the outside world answers during one iteration of the loop: the result of
  \<^verbatim>\<open>mt5_client.get_open_positions()\<close> and the failure of the upsert, if any.
\<close>

record tick_env =
  get_open_positions :: "error + Position list"
  upsert_fault :: "error option"

text \<open>\<^verbatim>\<open>detect_closes\<close>: ``returns tickets that were open but now missing''.\<close>

definition detect_closes :: "ticket set \<Rightarrow> ticket set \<Rightarrow> ticket set" where
  "detect_closes seen_tickets current_tickets = seen_tickets - current_tickets"

text \<open>
  The state of \<^verbatim>\<open>main_loop\<close>: its local variable \<^verbatim>\<open>seen_open_tickets\<close>, and the
  store the calls write to.
\<close>

record loop_state =
  seen_open_tickets :: "ticket set"
  db :: store

text \<open>
  \<^verbatim>\<open>main_loop\<close> calls \<^verbatim>\<open>process_closed_tickets\<close>, of which the source has the
  signature and the docstring (``Fetch close info from history_deals_get, append to
  trades'') and no statement. What a body of that function does is therefore a
  parameter of the loop: given the closed tickets and the store, it returns the store
  it leaves and the exception it raises, if any.
\<close>

type_synonym close_processor = "ticket set \<Rightarrow> store \<Rightarrow> store \<times> error option"

text \<open>
  One iteration of \<^verbatim>\<open>while True\<close>: the \<^verbatim>\<open>try\<close> block up to the assignment of
  \<^verbatim>\<open>seen_open_tickets\<close>, or, when a call raises, the \<^verbatim>\<open>except\<close> clause, which
  backs off and goes to the next iteration. The first component of the result is the
  exception caught, if any.
\<close>

definition main_loop_body_with ::
  "close_processor \<Rightarrow> tick_env \<Rightarrow> loop_state \<Rightarrow> error option \<times> loop_state" where
  "main_loop_body_with process_closed env s =
     (case get_open_positions env of
        Inl e \<Rightarrow> (Some e, s)
      | Inr positions \<Rightarrow>
          (case upsert_positions (upsert_fault env) positions (db s) of
             Inl e \<Rightarrow> (Some e, s)
           | Inr st1 \<Rightarrow>
               (let current_tickets = Position.ticket ` set positions;
                    closed = detect_closes (seen_open_tickets s) current_tickets
                in (case process_closed closed st1 of
                      (st2, Some e) \<Rightarrow> (Some e, s\<lparr>db := st2\<rparr>)
                    | (st2, None) \<Rightarrow>
                        (None, \<lparr>seen_open_tickets = current_tickets, db = st2\<rparr>)))))"

text \<open>
  \<^verbatim>\<open>process_closed_tickets\<close> as the source has it: with a docstring for a body, a
  call returns at once, with no effect and no exception.
\<close>

definition process_closed_tickets :: close_processor where
  "process_closed_tickets closed_tickets st = (st, None)"

text \<open>The iteration of the loop as the source has it.\<close>

definition main_loop_body :: "tick_env \<Rightarrow> loop_state \<Rightarrow> error option \<times> loop_state" where
  "main_loop_body env s = main_loop_body_with process_closed_tickets env s"

text \<open>\<^verbatim>\<open>seen_open_tickets = set()\<close>: the state in which \<^verbatim>\<open>main_loop\<close> enters the
  loop, whatever the store holds.\<close>

definition main_loop_start :: "store \<Rightarrow> loop_state" where
  "main_loop_start st = \<lparr>seen_open_tickets = {}, db = st\<rparr>"

text \<open>The loop never returns; \<open>main_loop\<close> runs its first iterations, one for each
  element of the list of answers.\<close>

fun main_loop :: "tick_env list \<Rightarrow> loop_state \<Rightarrow> loop_state" where
  "main_loop [] s = s"
| "main_loop (env # envs) s = main_loop envs (snd (main_loop_body env s))"

text \<open>
  The startup baseline as the spec words it: the tickets in the store's position
  table, together with the tickets that have a persisted \<^verbatim>\<open>OPEN\<close> trade event but no
  \<^verbatim>\<open>CLOSE\<close>.
\<close>

definition has_event :: "store \<Rightarrow> action \<Rightarrow> ticket \<Rightarrow> bool" where
  "has_event st a t = list_ex (\<lambda>r. Trade.ticket r = t \<and> action r = a) (trades_table st)"

definition spec_startup_baseline :: "store \<Rightarrow> ticket set" where
  "spec_startup_baseline st =
     dom (positions_table st) \<union>
     set (filter (\<lambda>t. has_event st OPEN t \<and> \<not> has_event st CLOSE t) (map Trade.ticket (trades_table st)))"

text \<open>The actions persisted for one ticket, in the order of the trade log, and the
  logs the spec's invariant allows.\<close>

definition ticket_log :: "ticket \<Rightarrow> store \<Rightarrow> action list" where
  "ticket_log t st = map action (filter (\<lambda>r. Trade.ticket r = t) (trades_table st))"

definition spec_log_ok :: "action list \<Rightarrow> bool" where
  "spec_log_ok l \<longleftrightarrow> l = [] \<or> l = [OPEN] \<or> l = [OPEN, CLOSE]"


text \<open>A store with no rows, and the answers of an iteration in which every call
  succeeds: the terminal reports the given open positions.\<close>

definition empty_store :: store where
  "empty_store = \<lparr>positions_table = Map.empty, trades_table = [], trades_id_seq = 1\<rparr>"

definition quiet_env :: "Position list \<Rightarrow> tick_env" where
  "quiet_env ps = \<lparr>get_open_positions = Inr ps, upsert_fault = None\<rparr>"

text \<open>
  Two bodies to run the loop with, in the manner of test doubles: one raises unless
  it is called with the expected set of tickets, the other always raises. Neither
  touches the store.
\<close>

definition expect_closed :: "ticket set \<Rightarrow> close_processor" where
  "expect_closed expected closed_tickets st =
     (st, if closed_tickets = expected then None else Some (Exception ''unexpected tickets''))"

definition raising :: close_processor where
  "raising closed_tickets st = (st, Some (Exception ''timeout''))"

text \<open>A store as an earlier run of the bridge may leave it: ticket 100 is in the
  position table and has an \<^verbatim>\<open>OPEN\<close> trade event but no \<^verbatim>\<open>CLOSE\<close>.\<close>

definition restart_store :: store where
  "restart_store =
     \<lparr>positions_table = [100 \<mapsto> sample_position 100],
      trades_table = [sample_trade 1 100 OPEN ''2025-01-01T00:00:00Z''],
      trades_id_seq = 2\<rparr>"

section \<open>Retry Controller\<close>

text \<open>
  Modelled from the spec: the Retry Controller is not in the source, which has only
  the comment ``Exponential backoff on errors'' in the \<^verbatim>\<open>except\<close> clause of
  \<^verbatim>\<open>main_loop\<close> and the recommendation ``Retry with jitter, max 3 attempts''.
  Following the spec, \<open>execute\<close> runs the operation up to \<open>maxAttempts\<close> times;
  after the failed attempt number \<open>k\<close>, if an attempt is left, it sleeps for
  \<open>min(maxDelay, baseDelay * 2^(k-1))\<close> randomized by \<open>\<plusminus>jitterFraction\<close>; when no
  attempt is left it returns \<open>Failure{cause, attempts}\<close>, a value. The operation is
  given by the result of each of its attempts (numbered from 1) and the randomness by
  the draw of each attempt, a number that is clamped to \<open>[-1, 1]\<close> and scales the
  jitter. Besides the result, the model returns the delays slept and the number of
  attempts made. With \<open>maxAttempts = 0\<close> no attempt is made and the failure has no
  cause.
\<close>

record policy =
  maxAttempts :: nat
  baseDelay :: rat
  maxDelay :: rat
  jitterFraction :: rat

datatype 'a Result = Success 'a | Failure (cause: "error option") (attempts: nat)

record 'a execution =
  outcome :: "'a Result"
  slept :: "rat list"
  calls :: nat

text \<open>Modelled from the spec: the delay \<open>min(maxDelay, baseDelay * 2^(attempt-1))\<close>
  after the failed attempt of the given number.\<close>

definition nominal_delay :: "policy \<Rightarrow> nat \<Rightarrow> rat" where
  "nominal_delay pol attempt = min (maxDelay pol) (baseDelay pol * 2 ^ (attempt - 1))"

text \<open>Modelled from the spec: that delay, randomized by \<open>\<plusminus>jitterFraction\<close> with the
  given draw.\<close>

definition retry_delay :: "policy \<Rightarrow> rat \<Rightarrow> nat \<Rightarrow> rat" where
  "retry_delay pol draw attempt =
     nominal_delay pol attempt * (1 + jitterFraction pol * max (- 1) (min 1 draw))"

text \<open>Modelled from the spec: the attempts from number \<open>k + 1\<close> on, when \<open>k\<close>
  attempts have failed and the second number of attempts is left.\<close>

fun attempt_loop ::
  "(nat \<Rightarrow> error + 'a) \<Rightarrow> policy \<Rightarrow> (nat \<Rightarrow> rat) \<Rightarrow> nat \<Rightarrow> nat \<Rightarrow> 'a execution" where
  "attempt_loop operation pol draw k 0 = \<lparr>outcome = Failure None k, slept = [], calls = k\<rparr>"
| "attempt_loop operation pol draw k (Suc n) =
     (case operation (Suc k) of
        Inr v \<Rightarrow> \<lparr>outcome = Success v, slept = [], calls = Suc k\<rparr>
      | Inl e \<Rightarrow>
          (if n = 0 then \<lparr>outcome = Failure (Some e) (Suc k), slept = [], calls = Suc k\<rparr>
           else (let ex = attempt_loop operation pol draw (Suc k) n
                 in ex\<lparr>slept := retry_delay pol (draw (Suc k)) (Suc k) # slept ex\<rparr>)))"

text \<open>Modelled from the spec: \<^verbatim>\<open>execute(operation, policy)\<close>.\<close>

definition execute :: "(nat \<Rightarrow> error + 'a) \<Rightarrow> policy \<Rightarrow> (nat \<Rightarrow> rat) \<Rightarrow> 'a execution" where
  "execute operation pol draw = attempt_loop operation pol draw 0 (maxAttempts pol)"

text \<open>A policy and an operation to evaluate the controller on: three attempts, delays
  of 1 s doubling up to 10 s, a quarter of jitter; the operation fails with a timeout
  until the attempt of the given number, which succeeds.\<close>

definition sample_policy :: policy where
  "sample_policy = \<lparr>maxAttempts = 3, baseDelay = 1, maxDelay = 10, jitterFraction = 1 / 4\<rparr>"

definition flaky :: "nat \<Rightarrow> nat \<Rightarrow> error + nat" where
  "flaky good attempt = (if attempt < good then Inl (Exception ''timeout'') else Inr attempt)"

section \<open>Properties of the query helpers\<close>

text \<open>
  C9. When the store reports an error, \<open>fetchPositions\<close> and \<open>fetchRecentTrades\<close> return
  the empty list and \<open>fetchBridgeStatus\<close> returns null; when the data is absent, the
  two list helpers return the empty list. The helpers are total
  functions into plain values: no outcome makes them raise.
\<close>

theorem query_helpers_never_throw:
  "(error r1 \<noteq> None \<longrightarrow> fetchPositions r1 = []) \<and>
   (error r2 \<noteq> None \<longrightarrow> fetchRecentTrades r2 = []) \<and>
   (error r3 \<noteq> None \<longrightarrow> fetchBridgeStatus r3 = None) \<and>
   (data r1 = None \<longrightarrow> fetchPositions r1 = []) \<and>
   (data r2 = None \<longrightarrow> fetchRecentTrades r2 = [])"
  by (simp add: fetchPositions_def fetchRecentTrades_def fetchBridgeStatus_def)

theorem query_helpers_never_throw_witness:
  "error \<lparr>data = Some [sample_position 1], error = Some ''timeout''\<rparr> \<noteq> None \<and>
   fetchPositions \<lparr>data = Some [sample_position 1], error = Some ''timeout''\<rparr> = [] \<and>
   error \<lparr>data = Some [sample_trade 1 1 OPEN ''t''], error = Some ''timeout''\<rparr> \<noteq> None \<and>
   fetchRecentTrades \<lparr>data = Some [sample_trade 1 1 OPEN ''t''], error = Some ''timeout''\<rparr> = [] \<and>
   error \<lparr>data = (None :: BridgeStatus option), error = Some ''no rows''\<rparr> \<noteq> None \<and>
   fetchBridgeStatus \<lparr>data = None, error = Some ''no rows''\<rparr> = None \<and>
   data \<lparr>data = (None :: Position list option), error = None\<rparr> = None \<and>
   fetchPositions \<lparr>data = None, error = None\<rparr> = [] \<and>
   data \<lparr>data = (None :: Trade list option), error = None\<rparr> = None \<and>
   fetchRecentTrades \<lparr>data = None, error = None\<rparr> = []"
  using query_helpers_never_throw
    [of "\<lparr>data = Some [sample_position 1], error = Some ''timeout''\<rparr>"
        "\<lparr>data = Some [sample_trade 1 1 OPEN ''t''], error = Some ''timeout''\<rparr>"
        "\<lparr>data = None, error = Some ''no rows''\<rparr>"]
    query_helpers_never_throw
    [of "\<lparr>data = None, error = None\<rparr>" "\<lparr>data = None, error = None\<rparr>"
        "\<lparr>data = None, error = None\<rparr>"]
  by simp

section \<open>Properties of the realtime handlers\<close>

lemma slice_from_zero: "0 \<le> n \<Longrightarrow> slice xs 0 n = take (nat n) xs"
  by (simp add: slice_def Let_def min_def max_def)

text \<open>
  C8, as stated, fails for a negative limit: \<^verbatim>\<open>slice(0, -1)\<close> drops the last entry
  instead of truncating to a length, so with limit \<open>-1\<close> a realtime insert into a
  one-entry list leaves one entry, which is more than the limit.
\<close>

theorem trades_handler_negative_limit_counterexample:
  "handleRealtimeUpdate_trades (- 1) [sample_trade 1 10 OPEN ''t1'']
     \<lparr>eventType = ''INSERT'', new = sample_trade 2 20 OPEN ''t2'',
      old = sample_trade 0 0 OPEN ''t0''\<rparr> = [sample_trade 2 20 OPEN ''t2''] \<and>
   \<not> int (length (handleRealtimeUpdate_trades (- 1) [sample_trade 1 10 OPEN ''t1'']
        \<lparr>eventType = ''INSERT'', new = sample_trade 2 20 OPEN ''t2'',
         old = sample_trade 0 0 OPEN ''t0''\<rparr>)) \<le> - 1"
  by (simp add: handleRealtimeUpdate_trades_def slice_def)

text \<open>
  C8, amended. For every limit \<open>L \<ge> 0\<close> and every realtime \<^verbatim>\<open>INSERT\<close> payload, the
  handler puts the new trade in front of the list and keeps the first \<open>L\<close> entries, so
  the list has at most \<open>L\<close> entries after the update.
\<close>

theorem trades_handler_bounded:
  assumes "0 \<le> limit" and "eventType p = ''INSERT''"
  shows "handleRealtimeUpdate_trades limit prevTrades p = take (nat limit) (new p # prevTrades) \<and>
         int (length (handleRealtimeUpdate_trades limit prevTrades p)) \<le> limit"
  using assms by (simp add: handleRealtimeUpdate_trades_def slice_from_zero)

theorem trades_handler_bounded_witness:
  "(0::int) \<le> 2 \<and>
   eventType \<lparr>eventType = ''INSERT'', new = sample_trade 3 30 CLOSE ''t3'',
              old = sample_trade 0 0 OPEN ''t0''\<rparr> = ''INSERT'' \<and>
   handleRealtimeUpdate_trades 2 [sample_trade 2 20 OPEN ''t2'', sample_trade 1 10 OPEN ''t1'']
     \<lparr>eventType = ''INSERT'', new = sample_trade 3 30 CLOSE ''t3'',
      old = sample_trade 0 0 OPEN ''t0''\<rparr>
   = [sample_trade 3 30 CLOSE ''t3'', sample_trade 2 20 OPEN ''t2'']"
  using trades_handler_bounded
    [of 2 "\<lparr>eventType = ''INSERT'', new = sample_trade 3 30 CLOSE ''t3'',
             old = sample_trade 0 0 OPEN ''t0''\<rparr>"
        "[sample_trade 2 20 OPEN ''t2'', sample_trade 1 10 OPEN ''t1'']"]
  by simp

lemma ticket_after_update:
  "Position.ticket \<circ> (\<lambda>pos. if Position.ticket pos = Position.ticket n then n else pos)
   = Position.ticket"
  by (rule ext) simp

lemma ticket_exists_iff:
  "list_ex (\<lambda>q. Position.ticket q = t) xs \<longleftrightarrow> t \<in> Position.ticket ` set xs"
  by (auto simp: list_ex_iff)

text \<open>
  C10. If the tickets of the positions list are pairwise distinct, they are so after
  the handler has run, for every payload. On \<^verbatim>\<open>INSERT\<close> the list is unchanged when
  the incoming ticket is in it, and the new row is appended otherwise; on
  \<^verbatim>\<open>UPDATE\<close> the entries with the incoming ticket, and only they, are replaced by the
  new row, in place; on \<^verbatim>\<open>DELETE\<close> every entry with the deleted ticket is removed
  and the others are kept.
\<close>

theorem positions_handler_keeps_tickets_distinct:
  assumes "distinct (map Position.ticket prevPositions)"
  shows "distinct (map Position.ticket (handleRealtimeUpdate_positions prevPositions p)) \<and>
    (eventType p = ''INSERT'' \<longrightarrow>
       handleRealtimeUpdate_positions prevPositions p =
         (if Position.ticket (new p) \<in> Position.ticket ` set prevPositions
          then prevPositions else prevPositions @ [new p])) \<and>
    (eventType p = ''UPDATE'' \<longrightarrow>
       length (handleRealtimeUpdate_positions prevPositions p) = length prevPositions \<and>
       (\<forall>i < length prevPositions.
          handleRealtimeUpdate_positions prevPositions p ! i =
            (if Position.ticket (prevPositions ! i) = Position.ticket (new p)
             then new p else prevPositions ! i))) \<and>
    (eventType p = ''DELETE'' \<longrightarrow>
       Position.ticket (old p) \<notin> Position.ticket ` set (handleRealtimeUpdate_positions prevPositions p) \<and>
       handleRealtimeUpdate_positions prevPositions p =
         filter (\<lambda>pos. Position.ticket pos \<noteq> Position.ticket (old p)) prevPositions)"
proof -
  have d: "distinct (map Position.ticket (handleRealtimeUpdate_positions prevPositions p))"
    using assms
    by (auto simp: handleRealtimeUpdate_positions_def list_ex_iff ticket_after_update
        distinct_map_filter)
  have i: "eventType p = ''INSERT'' \<longrightarrow>
       handleRealtimeUpdate_positions prevPositions p =
         (if Position.ticket (new p) \<in> Position.ticket ` set prevPositions
          then prevPositions else prevPositions @ [new p])"
    by (simp add: handleRealtimeUpdate_positions_def ticket_exists_iff)
  have u: "eventType p = ''UPDATE'' \<longrightarrow>
       length (handleRealtimeUpdate_positions prevPositions p) = length prevPositions \<and>
       (\<forall>i < length prevPositions.
          handleRealtimeUpdate_positions prevPositions p ! i =
            (if Position.ticket (prevPositions ! i) = Position.ticket (new p)
             then new p else prevPositions ! i))"
    by (simp add: handleRealtimeUpdate_positions_def)
  have r: "eventType p = ''DELETE'' \<longrightarrow>
       Position.ticket (old p) \<notin> Position.ticket ` set (handleRealtimeUpdate_positions prevPositions p) \<and>
       handleRealtimeUpdate_positions prevPositions p =
         filter (\<lambda>pos. Position.ticket pos \<noteq> Position.ticket (old p)) prevPositions"
    by (auto simp: handleRealtimeUpdate_positions_def)
  from d i u r show ?thesis by blast
qed

theorem positions_handler_keeps_tickets_distinct_witness:
  "distinct (map Position.ticket [sample_position 1, sample_position 2]) \<and>
   handleRealtimeUpdate_positions [sample_position 1, sample_position 2]
     \<lparr>eventType = ''INSERT'', new = sample_position 2, old = sample_position 0\<rparr>
     = [sample_position 1, sample_position 2] \<and>
   handleRealtimeUpdate_positions [sample_position 1, sample_position 2]
     \<lparr>eventType = ''INSERT'', new = sample_position 3, old = sample_position 0\<rparr>
     = [sample_position 1, sample_position 2, sample_position 3] \<and>
   handleRealtimeUpdate_positions [sample_position 1, sample_position 2]
     \<lparr>eventType = ''UPDATE'', new = (sample_position 2)\<lparr>Position.volume := 5\<rparr>,
      old = sample_position 2\<rparr>
     = [sample_position 1, (sample_position 2)\<lparr>Position.volume := 5\<rparr>] \<and>
   handleRealtimeUpdate_positions [sample_position 1, sample_position 2]
     \<lparr>eventType = ''DELETE'', new = sample_position 0, old = sample_position 1\<rparr>
     = [sample_position 2]"
proof -
  let ?prev = "[sample_position 1, sample_position 2]"
  have h: "distinct (map Position.ticket ?prev)"
    by (simp add: sample_position_def)
  have ins1: "handleRealtimeUpdate_positions ?prev
     \<lparr>eventType = ''INSERT'', new = sample_position 2, old = sample_position 0\<rparr> = ?prev"
    using positions_handler_keeps_tickets_distinct [OF h,
        of "\<lparr>eventType = ''INSERT'', new = sample_position 2, old = sample_position 0\<rparr>"]
    by (simp add: sample_position_def)
  have ins2: "handleRealtimeUpdate_positions ?prev
     \<lparr>eventType = ''INSERT'', new = sample_position 3, old = sample_position 0\<rparr>
     = [sample_position 1, sample_position 2, sample_position 3]"
    using positions_handler_keeps_tickets_distinct [OF h,
        of "\<lparr>eventType = ''INSERT'', new = sample_position 3, old = sample_position 0\<rparr>"]
    by (simp add: sample_position_def)
  have upd: "handleRealtimeUpdate_positions ?prev
     \<lparr>eventType = ''UPDATE'', new = (sample_position 2)\<lparr>Position.volume := 5\<rparr>,
      old = sample_position 2\<rparr>
     = [sample_position 1, (sample_position 2)\<lparr>Position.volume := 5\<rparr>]"
    using positions_handler_keeps_tickets_distinct [OF h,
        of "\<lparr>eventType = ''UPDATE'', new = (sample_position 2)\<lparr>Position.volume := 5\<rparr>,
             old = sample_position 2\<rparr>"]
    by (simp add: sample_position_def list_eq_iff_nth_eq All_less_Suc2)
  have del: "handleRealtimeUpdate_positions ?prev
     \<lparr>eventType = ''DELETE'', new = sample_position 0, old = sample_position 1\<rparr>
     = [sample_position 2]"
    using positions_handler_keeps_tickets_distinct [OF h,
        of "\<lparr>eventType = ''DELETE'', new = sample_position 0, old = sample_position 1\<rparr>"]
    by (simp add: sample_position_def)
  from h ins1 ins2 upd del show ?thesis by blast
qed

section \<open>Properties of the store and of the bridge loop\<close>

lemma insert_trade_appends:
  assumes "insert_trade r st = Inr st'"
  shows "trades_table st' = trades_table st @ [r\<lparr>Trade.id_ := trades_id_seq st\<rparr>]"
    and "positions_table st' = positions_table st"
    and "idx_trades_unique r \<notin> set (map idx_trades_unique (trades_table st))"
  using assms by (auto simp: insert_trade_def split: if_splits)

lemma insert_trade_rejects:
  "insert_trade r st = Inl e \<Longrightarrow>
     e = unique_violation \<and> idx_trades_unique r \<in> set (map idx_trades_unique (trades_table st))"
  by (auto simp: insert_trade_def split: if_splits)

lemma upsert_positions_effect:
  assumes "upsert_positions fault ps st = Inr st'"
  shows "trades_table st' = trades_table st"
    and "dom (positions_table st') = dom (positions_table st) \<union> Position.ticket ` set ps"
    and "fault = None"
proof -
  have dom_fold: "dom (fold (\<lambda>p m. m(Position.ticket p \<mapsto> p)) ps m) = dom m \<union> Position.ticket ` set ps" for m
    by (induction ps arbitrary: m) auto
  from assms show "trades_table st' = trades_table st"
    by (auto simp: upsert_positions_def split: option.splits)
  from assms have "positions_table st' = fold (\<lambda>p m. m(Position.ticket p \<mapsto> p)) ps (positions_table st)"
    by (auto simp: upsert_positions_def split: option.splits)
  with dom_fold [of "positions_table st"]
  show "dom (positions_table st') = dom (positions_table st) \<union> Position.ticket ` set ps"
    by simp
  from assms show "fault = None"
    by (auto simp: upsert_positions_def split: option.splits)
qed

lemma upsert_positions_fails: "upsert_positions (Some e) ps st = Inl e"
  by (simp add: upsert_positions_def)

text \<open>The ways an iteration goes, whatever the body of \<^verbatim>\<open>process_closed_tickets\<close>.\<close>

lemma fetch_failed:
  "get_open_positions env = Inl e \<Longrightarrow> main_loop_body_with pct env s = (Some e, s)"
  by (simp add: main_loop_body_with_def)

lemma upsert_failed:
  "get_open_positions env = Inr positions \<Longrightarrow> upsert_fault env = Some e \<Longrightarrow>
     main_loop_body_with pct env s = (Some e, s)"
  by (simp add: main_loop_body_with_def upsert_positions_fails)

lemma closes_processed:
  "get_open_positions env = Inr positions \<Longrightarrow>
   upsert_positions (upsert_fault env) positions (db s) = Inr st1 \<Longrightarrow>
     main_loop_body_with pct env s =
       (case pct (seen_open_tickets s - Position.ticket ` set positions) st1 of
          (st2, None) \<Rightarrow> (None, \<lparr>seen_open_tickets = Position.ticket ` set positions, db = st2\<rparr>)
        | (st2, Some e) \<Rightarrow> (Some e, s\<lparr>db := st2\<rparr>))"
  by (auto simp: main_loop_body_with_def detect_closes_def Let_def split: prod.splits option.splits)

text \<open>The iteration of the source writes the position table only.\<close>

lemma main_loop_body_trades:
  "trades_table (db (snd (main_loop_body env s))) = trades_table (db s)"
proof (cases "get_open_positions env")
  case (Inl e)
  then show ?thesis by (simp add: main_loop_body_def fetch_failed)
next
  case (Inr positions)
  show ?thesis
  proof (cases "upsert_positions (upsert_fault env) positions (db s)")
    case (Inl e)
    with Inr show ?thesis by (simp add: main_loop_body_def main_loop_body_with_def)
  next
    case st1: (Inr st1)
    from closes_processed [OF Inr st1, of process_closed_tickets] upsert_positions_effect(1) [OF st1]
    show ?thesis by (simp add: main_loop_body_def process_closed_tickets_def)
  qed
qed


text \<open>The definitions a run of the loop on concrete answers unfolds.\<close>

lemmas run_defs = main_loop_body_def main_loop_body_with_def process_closed_tickets_def
  quiet_env_def empty_store_def upsert_positions_def sample_position_def detect_closes_def
  sample_trade_def Let_def insert_Diff_if

text \<open>
  C1, as stated, fails on the sketch. With ticket 100 open in the store (in the position
  table, with an \<^verbatim>\<open>OPEN\<close> event and no \<^verbatim>\<open>CLOSE\<close>), the baseline the spec describes
  is \<open>{100}\<close>, but \<^verbatim>\<open>main_loop\<close> starts from the empty set; the first iteration,
  in which the terminal reports no open position, completes and the trade log still
  holds the \<^verbatim>\<open>OPEN\<close> event alone: no \<^verbatim>\<open>CLOSE\<close> event is produced for ticket 100.
\<close>

theorem restart_baseline_counterexample:
  "spec_startup_baseline restart_store = {100} \<and>
   seen_open_tickets (main_loop_start restart_store) = {} \<and>
   fst (main_loop_body (quiet_env []) (main_loop_start restart_store)) = None \<and>
   trades_table (db (snd (main_loop_body (quiet_env []) (main_loop_start restart_store)))) =
     [sample_trade 1 100 OPEN ''2025-01-01T00:00:00Z'']"
  by (simp add: run_defs main_loop_start_def restart_store_def spec_startup_baseline_def
      has_event_def)

text \<open>
  C1, amended. At startup the baseline of \<^verbatim>\<open>main_loop\<close> is the empty set, whatever the
  store holds, and the first iteration after a (re)start appends nothing to the trade
  log, whatever the terminal reports: no \<^verbatim>\<open>CLOSE\<close> event is produced on the first
  tick for a ticket that the store holds as open.
\<close>

theorem startup_baseline_is_empty:
  "seen_open_tickets (main_loop_start st) = {} \<and>
   trades_table (db (snd (main_loop_body env (main_loop_start st)))) = trades_table st"
proof -
  from main_loop_body_trades [of env "main_loop_start st"]
  show ?thesis by (simp add: main_loop_start_def)
qed








text \<open>
  C5. Whatever the body of \<^verbatim>\<open>process_closed_tickets\<close>: when the fetch raises, or the
  upsert raises, the iteration leaves the state as it was; when
  \<^verbatim>\<open>process_closed_tickets\<close> raises, it leaves the baseline as it was (and the store as
  the failed call left it); when no call raises, and only then, the baseline becomes
  the tickets of the snapshot. Hence, after an iteration in which a call raised, the
  next iteration that fetches and upserts a snapshot has the tickets closed that are in
  the baseline before the failure and not in its snapshot. The baseline is the whole
  state the loop of the sketch keeps between iterations.
\<close>

theorem degraded_tick_preserves_baseline:
  "(get_open_positions env = Inl e \<longrightarrow> main_loop_body_with pct env s = (Some e, s)) \<and>
   (get_open_positions env = Inr positions \<and> upsert_fault env = Some e \<longrightarrow>
      main_loop_body_with pct env s = (Some e, s)) \<and>
   (get_open_positions env = Inr positions \<and>
    upsert_positions (upsert_fault env) positions (db s) = Inr st1 \<and>
    pct (seen_open_tickets s - Position.ticket ` set positions) st1 = (st2, Some e) \<longrightarrow>
      main_loop_body_with pct env s = (Some e, s\<lparr>db := st2\<rparr>)) \<and>
   (get_open_positions env = Inr positions \<and>
    upsert_positions (upsert_fault env) positions (db s) = Inr st1 \<and>
    pct (seen_open_tickets s - Position.ticket ` set positions) st1 = (st2, None) \<longrightarrow>
      main_loop_body_with pct env s =
        (None, \<lparr>seen_open_tickets = Position.ticket ` set positions, db = st2\<rparr>)) \<and>
   ((get_open_positions env = Inl e \<or>
     (get_open_positions env = Inr positions \<and> upsert_fault env = Some e) \<or>
     (get_open_positions env = Inr positions \<and>
      upsert_positions (upsert_fault env) positions (db s) = Inr st1 \<and>
      pct (seen_open_tickets s - Position.ticket ` set positions) st1 = (st2, Some e))) \<and>
    get_open_positions env' = Inr positions' \<and>
    upsert_positions (upsert_fault env') positions' (db (snd (main_loop_body_with pct env s))) =
      Inr st1' \<longrightarrow>
      seen_open_tickets (snd (main_loop_body_with pct env s)) = seen_open_tickets s \<and>
      main_loop_body_with pct' env' (snd (main_loop_body_with pct env s)) =
        (case pct' (seen_open_tickets s - Position.ticket ` set positions') st1' of
           (st2', None) \<Rightarrow>
             (None, \<lparr>seen_open_tickets = Position.ticket ` set positions', db = st2'\<rparr>)
         | (st2', Some e') \<Rightarrow> (Some e', (snd (main_loop_body_with pct env s))\<lparr>db := st2'\<rparr>)))"
proof -
  have c1: "main_loop_body_with pct env s = (Some e, s)" if "get_open_positions env = Inl e"
    using that by (simp add: fetch_failed)
  have c2: "main_loop_body_with pct env s = (Some e, s)"
    if "get_open_positions env = Inr positions \<and> upsert_fault env = Some e"
    using that by (simp add: upsert_failed)
  have c3: "main_loop_body_with pct env s = (Some e, s\<lparr>db := st2\<rparr>)"
    if "get_open_positions env = Inr positions \<and>
        upsert_positions (upsert_fault env) positions (db s) = Inr st1 \<and>
        pct (seen_open_tickets s - Position.ticket ` set positions) st1 = (st2, Some e)"
    using that by (simp add: closes_processed)
  have c4: "main_loop_body_with pct env s =
        (None, \<lparr>seen_open_tickets = Position.ticket ` set positions, db = st2\<rparr>)"
    if "get_open_positions env = Inr positions \<and>
        upsert_positions (upsert_fault env) positions (db s) = Inr st1 \<and>
        pct (seen_open_tickets s - Position.ticket ` set positions) st1 = (st2, None)"
    using that by (simp add: closes_processed)
  have c5: "seen_open_tickets (snd (main_loop_body_with pct env s)) = seen_open_tickets s \<and>
      main_loop_body_with pct' env' (snd (main_loop_body_with pct env s)) =
        (case pct' (seen_open_tickets s - Position.ticket ` set positions') st1' of
           (st2', None) \<Rightarrow>
             (None, \<lparr>seen_open_tickets = Position.ticket ` set positions', db = st2'\<rparr>)
         | (st2', Some e') \<Rightarrow> (Some e', (snd (main_loop_body_with pct env s))\<lparr>db := st2'\<rparr>))"
    if failed: "get_open_positions env = Inl e \<or>
       (get_open_positions env = Inr positions \<and> upsert_fault env = Some e) \<or>
       (get_open_positions env = Inr positions \<and>
        upsert_positions (upsert_fault env) positions (db s) = Inr st1 \<and>
        pct (seen_open_tickets s - Position.ticket ` set positions) st1 = (st2, Some e))"
      and fetch: "get_open_positions env' = Inr positions'"
      and ups: "upsert_positions (upsert_fault env') positions'
                  (db (snd (main_loop_body_with pct env s))) = Inr st1'"
  proof -
    from failed c1 c2 c3
    have same: "seen_open_tickets (snd (main_loop_body_with pct env s)) = seen_open_tickets s"
      by auto
    from closes_processed [OF fetch ups, of pct'] same show ?thesis by simp
  qed
  from c1 c2 c3 c4 c5 show ?thesis by (intro conjI impI) blast+
qed

theorem degraded_tick_preserves_baseline_witness:
  "main_loop_body_with process_closed_tickets
       ((quiet_env [])\<lparr>get_open_positions := Inl (Exception ''terminal down'')\<rparr>)
       \<lparr>seen_open_tickets = {1}, db = empty_store\<rparr> =
     (Some (Exception ''terminal down''), \<lparr>seen_open_tickets = {1}, db = empty_store\<rparr>) \<and>
   main_loop_body_with process_closed_tickets
       ((quiet_env [sample_position 2])\<lparr>upsert_fault := Some (Exception ''timeout'')\<rparr>)
       \<lparr>seen_open_tickets = {1}, db = empty_store\<rparr> =
     (Some (Exception ''timeout''), \<lparr>seen_open_tickets = {1}, db = empty_store\<rparr>) \<and>
   main_loop_body_with raising (quiet_env [sample_position 2])
       \<lparr>seen_open_tickets = {1}, db = empty_store\<rparr> =
     (Some (Exception ''timeout''),
      \<lparr>seen_open_tickets = {1},
       db = empty_store\<lparr>positions_table := [2 \<mapsto> sample_position 2]\<rparr>\<rparr>) \<and>
   main_loop_body_with process_closed_tickets (quiet_env [sample_position 2])
       \<lparr>seen_open_tickets = {1}, db = empty_store\<rparr> =
     (None,
      \<lparr>seen_open_tickets = {2},
       db = empty_store\<lparr>positions_table := [2 \<mapsto> sample_position 2]\<rparr>\<rparr>) \<and>
   main_loop_body_with (expect_closed {1}) (quiet_env [])
       (snd (main_loop_body_with process_closed_tickets
          ((quiet_env [sample_position 2])\<lparr>upsert_fault := Some (Exception ''timeout'')\<rparr>)
          \<lparr>seen_open_tickets = {1}, db = empty_store\<rparr>)) =
     (None, \<lparr>seen_open_tickets = {}, db = empty_store\<rparr>)"
proof -
  let ?s = "\<lparr>seen_open_tickets = {1}, db = empty_store\<rparr>"
  let ?down = "(quiet_env [])\<lparr>get_open_positions := Inl (Exception ''terminal down'')\<rparr>"
  let ?env = "quiet_env [sample_position 2]"
  let ?bad = "?env\<lparr>upsert_fault := Some (Exception ''timeout'')\<rparr>"
  let ?st1 = "empty_store\<lparr>positions_table := [2 \<mapsto> sample_position 2]\<rparr>"
  have down: "get_open_positions ?down = Inl (Exception ''terminal down'')" by simp
  have fetch: "get_open_positions ?env = Inr [sample_position 2]" by (simp add: quiet_env_def)
  have fetch_bad: "get_open_positions ?bad = Inr [sample_position 2]" by (simp add: quiet_env_def)
  have fault: "upsert_fault ?bad = Some (Exception ''timeout'')" by simp
  have ups: "upsert_positions (upsert_fault ?env) [sample_position 2] (db ?s) = Inr ?st1"
    by (simp add: quiet_env_def upsert_positions_def sample_position_def empty_store_def)
  have closed: "seen_open_tickets ?s - Position.ticket ` set [sample_position 2] = {1}"
    by (simp add: sample_position_def)
  have w1: "main_loop_body_with process_closed_tickets ?down ?s =
      (Some (Exception ''terminal down''), ?s)"
    by (rule degraded_tick_preserves_baseline
        [of ?down _ process_closed_tickets ?s, THEN conjunct1, THEN mp, OF down])
  have w2: "main_loop_body_with process_closed_tickets ?bad ?s = (Some (Exception ''timeout''), ?s)"
    by (rule degraded_tick_preserves_baseline
        [of ?bad _ process_closed_tickets ?s "[sample_position 2]",
          THEN conjunct2, THEN conjunct1, THEN mp, OF conjI, OF fetch_bad fault])
  have r: "raising (seen_open_tickets ?s - Position.ticket ` set [sample_position 2]) ?st1 =
      (?st1, Some (Exception ''timeout''))"
    by (simp add: raising_def)
  have "main_loop_body_with raising ?env ?s = (Some (Exception ''timeout''), ?s\<lparr>db := ?st1\<rparr>)"
    by (rule degraded_tick_preserves_baseline
        [of ?env _ raising ?s "[sample_position 2]" ?st1 ?st1,
          THEN conjunct2, THEN conjunct2, THEN conjunct1, THEN mp])
      (intro conjI fetch ups r)
  then have w3: "main_loop_body_with raising ?env ?s =
      (Some (Exception ''timeout''), \<lparr>seen_open_tickets = {1}, db = ?st1\<rparr>)"
    by simp
  have p: "process_closed_tickets
      (seen_open_tickets ?s - Position.ticket ` set [sample_position 2]) ?st1 = (?st1, None)"
    by (simp add: process_closed_tickets_def)
  have "main_loop_body_with process_closed_tickets ?env ?s =
      (None, \<lparr>seen_open_tickets = Position.ticket ` set [sample_position 2], db = ?st1\<rparr>)"
    by (rule degraded_tick_preserves_baseline
        [of ?env _ process_closed_tickets ?s "[sample_position 2]" ?st1 ?st1,
          THEN conjunct2, THEN conjunct2, THEN conjunct2, THEN conjunct1, THEN mp])
      (intro conjI fetch ups p)
  then have w4: "main_loop_body_with process_closed_tickets ?env ?s =
      (None, \<lparr>seen_open_tickets = {2}, db = ?st1\<rparr>)"
    by (simp add: sample_position_def)
  have fetch': "get_open_positions (quiet_env []) = Inr []" by (simp add: quiet_env_def)
  have ups': "upsert_positions (upsert_fault (quiet_env [])) []
      (db (snd (main_loop_body_with process_closed_tickets ?bad ?s))) = Inr empty_store"
    unfolding w2 by (simp add: quiet_env_def upsert_positions_def)
  have "main_loop_body_with (expect_closed {1}) (quiet_env [])
          (snd (main_loop_body_with process_closed_tickets ?bad ?s)) =
        (case expect_closed {1}
                (seen_open_tickets ?s - Position.ticket ` set ([] :: Position list)) empty_store of
           (st2', None) \<Rightarrow>
             (None, \<lparr>seen_open_tickets = Position.ticket ` set ([] :: Position list), db = st2'\<rparr>)
         | (st2', Some e') \<Rightarrow>
             (Some e', (snd (main_loop_body_with process_closed_tickets ?bad ?s))\<lparr>db := st2'\<rparr>))"
    by (rule degraded_tick_preserves_baseline
        [of ?bad "Exception ''timeout''" process_closed_tickets ?s "[sample_position 2]" _ _
            "quiet_env []" "[]" empty_store "expect_closed {1}",
          THEN conjunct2, THEN conjunct2, THEN conjunct2, THEN conjunct2, THEN mp, THEN conjunct2])
      (intro conjI disjI2 disjI1 fetch_bad fault fetch' ups')
  also have "\<dots> = (None, \<lparr>seen_open_tickets = {}, db = empty_store\<rparr>)"
    by (simp add: expect_closed_def)
  finally have w5: "main_loop_body_with (expect_closed {1}) (quiet_env [])
          (snd (main_loop_body_with process_closed_tickets ?bad ?s)) =
        (None, \<lparr>seen_open_tickets = {}, db = empty_store\<rparr>)" .
  from w1 w2 w3 w4 w5 show ?thesis by (intro conjI)
qed

lemma main_loop_trades: "trades_table (db (main_loop envs s)) = trades_table (db s)"
  by (induction envs arbitrary: s) (simp_all add: main_loop_body_trades)

lemma main_loop_body_with_log:
  assumes body: "\<forall>cs st. spec_log_ok (ticket_log t st) \<longrightarrow> spec_log_ok (ticket_log t (fst (pct cs st)))"
    and ok: "spec_log_ok (ticket_log t (db s))"
  shows "spec_log_ok (ticket_log t (db (snd (main_loop_body_with pct env s))))"
proof (cases "get_open_positions env")
  case (Inl e)
  with ok show ?thesis by (simp add: fetch_failed)
next
  case (Inr positions)
  show ?thesis
  proof (cases "upsert_positions (upsert_fault env) positions (db s)")
    case (Inl e)
    with Inr ok show ?thesis by (simp add: main_loop_body_with_def)
  next
    case st1: (Inr st1)
    let ?cs = "seen_open_tickets s - Position.ticket ` set positions"
    from upsert_positions_effect(1) [OF st1] ok have "spec_log_ok (ticket_log t st1)"
      by (simp add: ticket_log_def)
    with body have after: "spec_log_ok (ticket_log t (fst (pct ?cs st1)))" by blast
    from closes_processed [OF Inr st1, of pct]
    have "db (snd (main_loop_body_with pct env s)) = fst (pct ?cs st1)"
      by (auto split: prod.splits option.splits)
    with after show ?thesis by simp
  qed
qed

text \<open>
  C6. The loop as the source has it appends nothing to the trade log: after any number
  of iterations the log of every ticket is the log it had, so a log that is a prefix
  of \<open>[OPEN, CLOSE]\<close> (as every log of the empty store is) is one after every
  iteration, and no \<^verbatim>\<open>CLOSE\<close> is persisted without an \<^verbatim>\<open>OPEN\<close>. The statements of
  the loop themselves write no trade event: with any body of
  \<^verbatim>\<open>process_closed_tickets\<close> that keeps the logs within the prefixes, an iteration
  keeps them so.
\<close>

theorem trade_log_prefix_invariant:
  "trades_table (db (main_loop envs s)) = trades_table (db s) \<and>
   ticket_log t (db (main_loop envs s)) = ticket_log t (db s) \<and>
   spec_log_ok (ticket_log t empty_store) \<and>
   (spec_log_ok (ticket_log t (db s)) \<longrightarrow> spec_log_ok (ticket_log t (db (main_loop envs s)))) \<and>
   ((\<forall>cs st. spec_log_ok (ticket_log t st) \<longrightarrow> spec_log_ok (ticket_log t (fst (pct cs st)))) \<and>
    spec_log_ok (ticket_log t (db s)) \<longrightarrow>
      spec_log_ok (ticket_log t (db (snd (main_loop_body_with pct env s)))))"
proof -
  note same = main_loop_trades [of envs s]
  then have log: "ticket_log t (db (main_loop envs s)) = ticket_log t (db s)"
    by (simp add: ticket_log_def)
  have init: "spec_log_ok (ticket_log t empty_store)"
    by (simp add: ticket_log_def empty_store_def spec_log_ok_def)
  from same log init main_loop_body_with_log [of t pct s env] show ?thesis by simp
qed

theorem trade_log_prefix_invariant_witness:
  "spec_log_ok (ticket_log 100 (db (main_loop_start restart_store))) \<and>
   ticket_log 100 (db (main_loop [quiet_env [sample_position 100], quiet_env []]
      (main_loop_start restart_store))) = [OPEN] \<and>
   spec_log_ok (ticket_log 100 (db (main_loop [quiet_env [sample_position 100], quiet_env []]
      (main_loop_start restart_store)))) \<and>
   spec_log_ok (ticket_log 100 (db (snd (main_loop_body_with process_closed_tickets
      (quiet_env []) (main_loop_start restart_store)))))"
proof -
  let ?s = "main_loop_start restart_store"
  let ?envs = "[quiet_env [sample_position 100], quiet_env []]"
  note inv = trade_log_prefix_invariant [of ?envs ?s 100 process_closed_tickets "quiet_env []"]
  have start: "ticket_log 100 (db ?s) = [OPEN]"
    by (simp add: ticket_log_def main_loop_start_def restart_store_def sample_trade_def)
  then have h: "spec_log_ok (ticket_log 100 (db ?s))" by (simp add: spec_log_ok_def)
  from inv start have a: "ticket_log 100 (db (main_loop ?envs ?s)) = [OPEN]" by simp
  from inv h have b: "spec_log_ok (ticket_log 100 (db (main_loop ?envs ?s)))" by blast
  have body: "\<forall>cs st. spec_log_ok (ticket_log 100 st) \<longrightarrow>
      spec_log_ok (ticket_log 100 (fst (process_closed_tickets cs st)))"
    by (simp add: process_closed_tickets_def)
  from inv body h have c: "spec_log_ok (ticket_log 100 (db (snd (main_loop_body_with
      process_closed_tickets (quiet_env []) ?s))))"
    by blast
  from h a b c show ?thesis by (intro conjI)
qed

lemma count_unique_key:
  "distinct (map f xs) \<Longrightarrow> k \<in> f ` set xs \<Longrightarrow> length (filter (\<lambda>r. f r = k) xs) = 1"
proof (induction xs)
  case Nil
  then show ?case by simp
next
  case (Cons x xs)
  show ?case
  proof (cases "f x = k")
    case True
    from Cons.prems(1) have "f x \<notin> f ` set xs" by simp
    with True have "\<forall>r \<in> set xs. f r \<noteq> k" by blast
    then have "filter (\<lambda>r. f r = k) xs = []"
      by (simp add: filter_empty_conv)
    with True show ?thesis by simp
  next
    case False
    with Cons show ?thesis by auto
  qed
qed

lemma insert_trade_key:
  "idx_trades_unique (r\<lparr>Trade.id_ := n\<rparr>) = idx_trades_unique r"
  by (simp add: idx_trades_unique_def)

lemma insertTradeIfAbsent_stores:
  assumes inv: "distinct (map idx_trades_unique (trades_table st))"
    and call: "insertTradeIfAbsent fault ev st = Inr (out, st1)"
  shows "distinct (map idx_trades_unique (trades_table st1))"
    and "idx_trades_unique ev \<in> set (map idx_trades_unique (trades_table st1))"
proof -
  from call have nofault: "fault = None"
    by (auto simp: insertTradeIfAbsent_def split: option.splits)
  show "distinct (map idx_trades_unique (trades_table st1))"
  proof (cases "insert_trade ev st")
    case (Inl e)
    with call nofault have "st1 = st"
      by (auto simp: insertTradeIfAbsent_def split: error.splits)
    with inv show ?thesis by simp
  next
    case (Inr st')
    with call nofault have "st1 = st'" by (simp add: insertTradeIfAbsent_def)
    with insert_trade_appends(1,3) [OF Inr] inv show ?thesis
      by (simp add: insert_trade_key)
  qed
  show "idx_trades_unique ev \<in> set (map idx_trades_unique (trades_table st1))"
  proof (cases "insert_trade ev st")
    case (Inl e)
    with call nofault have "st1 = st"
      by (auto simp: insertTradeIfAbsent_def split: error.splits)
    with insert_trade_rejects [OF Inl] show ?thesis by simp
  next
    case (Inr st')
    with call nofault have "st1 = st'" by (simp add: insertTradeIfAbsent_def)
    with insert_trade_appends(1) [OF Inr] show ?thesis
      by (simp add: insert_trade_key)
  qed
qed

text \<open>
  C2, as stated, fails on the schema. The sink's only unique index on trades is
  \<^verbatim>\<open>idx_trades_unique\<close>, on \<^verbatim>\<open>(ticket, action, timestamp)\<close>; the index on
  \<^verbatim>\<open>(ticket, action)\<close> is not unique. Two \<^verbatim>\<open>CLOSE\<close> events of ticket 100 that
  differ in their timestamp are both inserted: two stored rows for one
  \<^verbatim>\<open>(ticket, action)\<close> pair, and the outcome of the second call is \<open>inserted\<close>.
\<close>

theorem trade_uniqueness_counterexample:
  "idx_trades_ticket_action (sample_trade 0 100 CLOSE ''2025-01-02T00:00:00Z'') =
     idx_trades_ticket_action (sample_trade 0 100 CLOSE ''2025-01-02T00:00:05Z'') \<and>
   insertTradeIfAbsent None (sample_trade 0 100 CLOSE ''2025-01-02T00:00:00Z'') empty_store =
     Inr (inserted,
          empty_store\<lparr>trades_table := [sample_trade 1 100 CLOSE ''2025-01-02T00:00:00Z''],
                       trades_id_seq := 2\<rparr>) \<and>
   insertTradeIfAbsent None (sample_trade 0 100 CLOSE ''2025-01-02T00:00:05Z'')
       (empty_store\<lparr>trades_table := [sample_trade 1 100 CLOSE ''2025-01-02T00:00:00Z''],
                    trades_id_seq := 2\<rparr>) =
     Inr (inserted,
          empty_store\<lparr>trades_table := [sample_trade 1 100 CLOSE ''2025-01-02T00:00:00Z'',
                                        sample_trade 2 100 CLOSE ''2025-01-02T00:00:05Z''],
                       trades_id_seq := 3\<rparr>)"
  by (simp add: insertTradeIfAbsent_def insert_trade_def idx_trades_unique_def
      idx_trades_ticket_action_def sample_trade_def empty_store_def)

text \<open>
  C2, amended. At most one stored trade row exists per \<^verbatim>\<open>(ticket, action, timestamp)\<close>
  triple: the sink enforces uniqueness on the triple. If the triples of the stored
  rows are pairwise distinct, they are so after a call of \<open>insertTradeIfAbsent\<close>; a
  second call with an identical \<^verbatim>\<open>(ticket, action, timestamp)\<close> leaves the store as it
  is, with exactly one row of that triple, and returns the outcome \<open>duplicate\<close>, a
  success and not an error.
\<close>

theorem trade_insert_at_most_once:
  assumes inv: "distinct (map idx_trades_unique (trades_table st))"
    and first: "insertTradeIfAbsent fault ev st = Inr (out, st1)"
    and same: "idx_trades_unique ev' = idx_trades_unique ev"
  shows "distinct (map idx_trades_unique (trades_table st1)) \<and>
         insertTradeIfAbsent None ev' st1 = Inr (duplicate, st1) \<and>
         length (filter (\<lambda>r. idx_trades_unique r = idx_trades_unique ev) (trades_table st1)) = 1"
proof -
  note stored = insertTradeIfAbsent_stores [OF inv first]
  from stored(2) same have "insert_trade ev' st1 = Inl unique_violation"
    by (simp add: insert_trade_def)
  then have dup: "insertTradeIfAbsent None ev' st1 = Inr (duplicate, st1)"
    by (simp add: insertTradeIfAbsent_def)
  from stored have "length (filter (\<lambda>r. idx_trades_unique r = idx_trades_unique ev) (trades_table st1)) = 1"
    by (intro count_unique_key) simp_all
  with stored(1) dup show ?thesis by blast
qed

theorem trade_insert_at_most_once_witness:
  "distinct (map idx_trades_unique (trades_table empty_store)) \<and>
   insertTradeIfAbsent None (sample_trade 0 100 CLOSE ''2025-01-02T00:00:00Z'') empty_store =
     Inr (inserted,
          empty_store\<lparr>trades_table := [sample_trade 1 100 CLOSE ''2025-01-02T00:00:00Z''],
                       trades_id_seq := 2\<rparr>) \<and>
   idx_trades_unique (sample_trade 7 100 CLOSE ''2025-01-02T00:00:00Z'') =
     idx_trades_unique (sample_trade 0 100 CLOSE ''2025-01-02T00:00:00Z'') \<and>
   insertTradeIfAbsent None (sample_trade 7 100 CLOSE ''2025-01-02T00:00:00Z'')
       (empty_store\<lparr>trades_table := [sample_trade 1 100 CLOSE ''2025-01-02T00:00:00Z''],
                    trades_id_seq := 2\<rparr>) =
     Inr (duplicate,
          empty_store\<lparr>trades_table := [sample_trade 1 100 CLOSE ''2025-01-02T00:00:00Z''],
                       trades_id_seq := 2\<rparr>)"
proof -
  let ?ev = "sample_trade 0 100 CLOSE ''2025-01-02T00:00:00Z''"
  let ?ev' = "sample_trade 7 100 CLOSE ''2025-01-02T00:00:00Z''"
  let ?st1 = "empty_store\<lparr>trades_table := [sample_trade 1 100 CLOSE ''2025-01-02T00:00:00Z''],
                       trades_id_seq := 2\<rparr>"
  have h1: "distinct (map idx_trades_unique (trades_table empty_store))"
    by (simp add: empty_store_def)
  have h2: "insertTradeIfAbsent None ?ev empty_store = Inr (inserted, ?st1)"
    by (simp add: insertTradeIfAbsent_def insert_trade_def idx_trades_unique_def
        sample_trade_def empty_store_def)
  have h3: "idx_trades_unique ?ev' = idx_trades_unique ?ev"
    by (simp add: idx_trades_unique_def sample_trade_def)
  from trade_insert_at_most_once [OF h1 h2 h3] h1 h2 h3 show ?thesis by blast
qed

section \<open>Properties of the Retry Controller\<close>

lemma retry_delay_jitter:
  "\<bar>retry_delay pol u k - nominal_delay pol k\<bar> \<le> \<bar>jitterFraction pol * nominal_delay pol k\<bar>"
proof -
  let ?c = "max (- 1) (min 1 u)"
  have c: "\<bar>?c\<bar> \<le> 1" by (simp add: abs_le_iff min_def max_def)
  have "retry_delay pol u k - nominal_delay pol k = (jitterFraction pol * nominal_delay pol k) * ?c"
    by (simp add: retry_delay_def algebra_simps)
  then have "\<bar>retry_delay pol u k - nominal_delay pol k\<bar> = \<bar>jitterFraction pol * nominal_delay pol k\<bar> * \<bar>?c\<bar>"
    by (simp add: abs_mult)
  also from c have "\<dots> \<le> \<bar>jitterFraction pol * nominal_delay pol k\<bar> * 1"
    by (intro mult_left_mono) simp_all
  finally show ?thesis by simp
qed

lemma attempt_loop_calls:
  "0 < n \<Longrightarrow> k < calls (attempt_loop operation pol draw k n) \<and>
      calls (attempt_loop operation pol draw k n) \<le> k + n \<and>
      Suc (k + length (slept (attempt_loop operation pol draw k n))) =
        calls (attempt_loop operation pol draw k n)"
proof (induction n arbitrary: k)
  case 0
  then show ?case by simp
next
  case (Suc n)
  show ?case
  proof (cases "operation (Suc k)")
    case (Inr v)
    then show ?thesis by simp
  next
    case (Inl e)
    show ?thesis
    proof (cases "n = 0")
      case True
      with Inl show ?thesis by simp
    next
      case False
      with Suc.IH [of "Suc k"] Inl show ?thesis by (simp add: Let_def)
    qed
  qed
qed

lemma attempt_loop_slept:
  "i < length (slept (attempt_loop operation pol draw k n)) \<Longrightarrow>
     slept (attempt_loop operation pol draw k n) ! i =
       retry_delay pol (draw (Suc (k + i))) (Suc (k + i))"
proof (induction n arbitrary: k i)
  case 0
  then show ?case by simp
next
  case (Suc n)
  show ?case
  proof (cases "operation (Suc k)")
    case (Inr v)
    with Suc.prems show ?thesis by simp
  next
    case (Inl e)
    show ?thesis
    proof (cases "n = 0")
      case True
      with Inl Suc.prems show ?thesis by simp
    next
      case False
      show ?thesis
      proof (cases i)
        case 0
        with Inl False show ?thesis by (simp add: Let_def)
      next
        case (Suc j)
        with Inl False Suc.prems have "j < length (slept (attempt_loop operation pol draw (Suc k) n))"
          by (simp add: Let_def)
        from Suc.IH [OF this] Inl False Suc show ?thesis by (simp add: Let_def)
      qed
    qed
  qed
qed

lemma attempt_loop_unfold:
  "operation (Suc k) = Inl e \<Longrightarrow> n \<noteq> 0 \<Longrightarrow>
     outcome (attempt_loop operation pol draw k (Suc n)) =
       outcome (attempt_loop operation pol draw (Suc k) n) \<and>
     calls (attempt_loop operation pol draw k (Suc n)) =
       calls (attempt_loop operation pol draw (Suc k) n)"
  by (simp add: Let_def)

lemma attempt_loop_success:
  "outcome (attempt_loop operation pol draw k n) = Success v \<Longrightarrow>
     operation (calls (attempt_loop operation pol draw k n)) = Inr v \<and>
     (\<forall>j. k < j \<and> j < calls (attempt_loop operation pol draw k n) \<longrightarrow> isl (operation j))"
proof (induction n arbitrary: k)
  case 0
  then show ?case by simp
next
  case (Suc n)
  show ?case
  proof (cases "operation (Suc k)")
    case (Inr w)
    with Suc.prems show ?thesis by (auto simp: less_Suc_eq)
  next
    case (Inl e)
    show ?thesis
    proof (cases "n = 0")
      case True
      with Inl Suc.prems show ?thesis by simp
    next
      case False
      note u = attempt_loop_unfold [where operation = operation and k = k and pol = pol and draw = draw, OF Inl False]
      from Suc.prems u have "outcome (attempt_loop operation pol draw (Suc k) n) = Success v"
        by simp
      from Suc.IH [OF this] have ih:
        "operation (calls (attempt_loop operation pol draw (Suc k) n)) = Inr v"
        "\<forall>j. Suc k < j \<and> j < calls (attempt_loop operation pol draw (Suc k) n) \<longrightarrow> isl (operation j)"
        by simp_all
      have "isl (operation j)"
        if "k < j" "j < calls (attempt_loop operation pol draw (Suc k) n)" for j
      proof (cases "j = Suc k")
        case True
        with Inl show ?thesis by simp
      next
        case False
        with that ih(2) show ?thesis by simp
      qed
      with ih(1) u show ?thesis by simp
    qed
  qed
qed

lemma attempt_loop_failure:
  "0 < n \<Longrightarrow> outcome (attempt_loop operation pol draw k n) = Failure c m \<Longrightarrow>
     m = k + n \<and> calls (attempt_loop operation pol draw k n) = k + n \<and>
     (\<exists>e. operation (k + n) = Inl e \<and> c = Some e) \<and>
     (\<forall>j. k < j \<and> j \<le> k + n \<longrightarrow> isl (operation j))"
proof (induction n arbitrary: k)
  case 0
  then show ?case by simp
next
  case (Suc n)
  show ?case
  proof (cases "operation (Suc k)")
    case (Inr w)
    with Suc.prems show ?thesis by simp
  next
    case (Inl e)
    show ?thesis
    proof (cases "n = 0")
      case True
      with Inl Suc.prems show ?thesis by (auto simp: le_Suc_eq)
    next
      case False
      note u = attempt_loop_unfold [where operation = operation and k = k and pol = pol and draw = draw, OF Inl False]
      from False have pos: "0 < n" by simp
      from Suc.prems u have "outcome (attempt_loop operation pol draw (Suc k) n) = Failure c m"
        by simp
      from Suc.IH [OF pos this] have ih:
        "m = Suc k + n" "calls (attempt_loop operation pol draw (Suc k) n) = Suc k + n"
        "\<exists>e. operation (Suc k + n) = Inl e \<and> c = Some e"
        "\<forall>j. Suc k < j \<and> j \<le> Suc k + n \<longrightarrow> isl (operation j)"
        by simp_all
      have "isl (operation j)" if "k < j" "j \<le> k + Suc n" for j
      proof (cases "j = Suc k")
        case True
        with Inl show ?thesis by simp
      next
        case False
        with that ih(4) show ?thesis by simp
      qed
      with ih(1,2,3) u show ?thesis by simp
    qed
  qed
qed

lemma attempt_loop_exhausted:
  "\<forall>j. k < j \<and> j \<le> k + n \<longrightarrow> isl (operation j) \<Longrightarrow>
     \<exists>c. outcome (attempt_loop operation pol draw k n) = Failure c (k + n)"
proof (induction n arbitrary: k)
  case 0
  then show ?case by simp
next
  case (Suc n)
  from Suc.prems have "isl (operation (Suc k))" by simp
  then obtain e where e: "operation (Suc k) = Inl e" by (cases "operation (Suc k)") auto
  show ?case
  proof (cases "n = 0")
    case True
    with e show ?thesis by simp
  next
    case False
    from Suc.prems have "\<forall>j. Suc k < j \<and> j \<le> Suc k + n \<longrightarrow> isl (operation j)" by simp
    from Suc.IH [OF this] attempt_loop_unfold [where operation = operation and k = k and pol = pol and draw = draw, OF e False] show ?thesis by simp
  qed
qed


text \<open>
  C7. For every operation, policy and source of randomness, \<open>execute\<close> makes at most
  \<open>maxAttempts\<close> attempts and sleeps once between two consecutive attempts; the delay
  before attempt \<open>k + 1\<close> differs from \<open>min(maxDelay, baseDelay * 2^(k-1))\<close> by at
  most the fraction \<open>jitterFraction\<close> of it; when every attempt fails the result is
  the value \<open>Failure\<close> with \<open>maxAttempts\<close> attempts and the error of the last attempt
  as its cause, and a \<open>Failure\<close> is returned in that case only; a \<open>Success\<close> carries
  the value of the first attempt that did not fail. \<open>execute\<close> is a total function
  into results: nothing is raised past it.
\<close>

theorem retry_controller_contract:
  "calls (execute operation pol draw) \<le> maxAttempts pol \<and>
   length (slept (execute operation pol draw)) = calls (execute operation pol draw) - 1 \<and>
   (\<forall>k. 1 \<le> k \<and> k < calls (execute operation pol draw) \<longrightarrow>
      \<bar>slept (execute operation pol draw) ! (k - 1) -
         min (maxDelay pol) (baseDelay pol * 2 ^ (k - 1))\<bar>
        \<le> \<bar>jitterFraction pol * min (maxDelay pol) (baseDelay pol * 2 ^ (k - 1))\<bar>) \<and>
   ((\<forall>j. 1 \<le> j \<and> j \<le> maxAttempts pol \<longrightarrow> isl (operation j)) \<longrightarrow>
      (\<exists>c. outcome (execute operation pol draw) = Failure c (maxAttempts pol))) \<and>
   (\<forall>c m. outcome (execute operation pol draw) = Failure c m \<longrightarrow>
      m = maxAttempts pol \<and> calls (execute operation pol draw) = maxAttempts pol \<and>
      (\<forall>j. 1 \<le> j \<and> j \<le> maxAttempts pol \<longrightarrow> isl (operation j)) \<and>
      (0 < maxAttempts pol \<longrightarrow> (\<exists>e. operation (maxAttempts pol) = Inl e \<and> c = Some e))) \<and>
   (\<forall>v. outcome (execute operation pol draw) = Success v \<longrightarrow>
      operation (calls (execute operation pol draw)) = Inr v \<and>
      (\<forall>j. 1 \<le> j \<and> j < calls (execute operation pol draw) \<longrightarrow> isl (operation j)))"
proof -
  let ?ex = "attempt_loop operation pol draw 0 (maxAttempts pol)"
  have bound: "calls ?ex \<le> maxAttempts pol \<and> length (slept ?ex) = calls ?ex - 1"
  proof (cases "maxAttempts pol = 0")
    case True
    then show ?thesis by simp
  next
    case False
    then have "0 < maxAttempts pol" by simp
    from attempt_loop_calls [OF this, of 0 operation pol draw] show ?thesis by auto
  qed
  have delays: "\<bar>slept ?ex ! (k - 1) - min (maxDelay pol) (baseDelay pol * 2 ^ (k - 1))\<bar>
        \<le> \<bar>jitterFraction pol * min (maxDelay pol) (baseDelay pol * 2 ^ (k - 1))\<bar>"
    if "1 \<le> k" "k < calls ?ex" for k
  proof -
    from that bound have "k - 1 < length (slept ?ex)" by simp
    from attempt_loop_slept [OF this] that
    have "slept ?ex ! (k - 1) = retry_delay pol (draw k) k" by simp
    with retry_delay_jitter [of pol "draw k" k] show ?thesis
      by (simp add: nominal_delay_def)
  qed
  have exhausted: "\<exists>c. outcome ?ex = Failure c (maxAttempts pol)"
    if "\<forall>j. 1 \<le> j \<and> j \<le> maxAttempts pol \<longrightarrow> isl (operation j)"
  proof -
    from that have "\<forall>j. 0 < j \<and> j \<le> 0 + maxAttempts pol \<longrightarrow> isl (operation j)" by simp
    from attempt_loop_exhausted [OF this, of pol draw] show ?thesis by simp
  qed
  have failure: "m = maxAttempts pol \<and> calls ?ex = maxAttempts pol \<and>
      (\<forall>j. 1 \<le> j \<and> j \<le> maxAttempts pol \<longrightarrow> isl (operation j)) \<and>
      (0 < maxAttempts pol \<longrightarrow> (\<exists>e. operation (maxAttempts pol) = Inl e \<and> c = Some e))"
    if f: "outcome ?ex = Failure c m" for c m
  proof (cases "maxAttempts pol = 0")
    case True
    with f show ?thesis by simp
  next
    case False
    then have "0 < maxAttempts pol" by simp
    from attempt_loop_failure [OF this f] show ?thesis by (simp add: Suc_le_eq)
  qed
  have success: "operation (calls ?ex) = Inr v \<and>
      (\<forall>j. 1 \<le> j \<and> j < calls ?ex \<longrightarrow> isl (operation j))"
    if "outcome ?ex = Success v" for v
    using attempt_loop_success [OF that] by (simp add: Suc_le_eq)
  from bound delays exhausted failure success show ?thesis
    unfolding execute_def by blast
qed

theorem retry_controller_contract_witness:
  "isl (flaky 9 1) \<and> isl (flaky 9 2) \<and> isl (flaky 9 3) \<and>
   maxAttempts sample_policy = 3 \<and>
   execute (flaky 9) sample_policy (\<lambda>k. if k = 1 then 1 else - 2) =
     \<lparr>outcome = Failure (Some (Exception ''timeout'')) 3, slept = [5 / 4, 3 / 2], calls = 3\<rparr> \<and>
   \<bar>(5 / 4 :: rat) - min 10 (1 * 2 ^ (1 - 1))\<bar> \<le> \<bar>1 / 4 * min 10 (1 * 2 ^ (1 - 1))\<bar> \<and>
   \<bar>(3 / 2 :: rat) - min 10 (1 * 2 ^ (2 - 1))\<bar> \<le> \<bar>1 / 4 * min 10 (1 * 2 ^ (2 - 1))\<bar> \<and>
   execute (flaky 3) sample_policy (\<lambda>k. 0) =
     \<lparr>outcome = Success 3, slept = [1, 2], calls = 3\<rparr> \<and>
   flaky 3 3 = Inr 3"
proof -
  let ?draw = "\<lambda>k::nat. if k = 1 then 1 else - 2 :: rat"
  have run: "execute (flaky 9) sample_policy ?draw =
     \<lparr>outcome = Failure (Some (Exception ''timeout'')) 3, slept = [5 / 4, 3 / 2], calls = 3\<rparr>"
    by (simp add: execute_def sample_policy_def flaky_def retry_delay_def nominal_delay_def
        eval_nat_numeral Let_def)
  have run2: "execute (flaky 3) sample_policy (\<lambda>k. 0) =
     \<lparr>outcome = Success 3, slept = [1, 2], calls = 3\<rparr>"
    by (simp add: execute_def sample_policy_def flaky_def retry_delay_def nominal_delay_def
        eval_nat_numeral Let_def)
  note c = retry_controller_contract [of "flaky 9" sample_policy ?draw]
  note c2 = retry_controller_contract [of "flaky 3" sample_policy "\<lambda>k. 0"]
  have fails: "isl (flaky 9 1) \<and> isl (flaky 9 2) \<and> isl (flaky 9 3)"
    by (simp add: flaky_def)
  have m: "maxAttempts sample_policy = 3" by (simp add: sample_policy_def)
  from c run have d1: "\<bar>(5 / 4 :: rat) - min 10 (1 * 2 ^ (1 - 1))\<bar> \<le> \<bar>1 / 4 * min 10 (1 * 2 ^ (1 - 1))\<bar>"
    by (simp add: sample_policy_def)
  from c run have d2: "\<bar>(3 / 2 :: rat) - min 10 (1 * 2 ^ (2 - 1))\<bar> \<le> \<bar>1 / 4 * min 10 (1 * 2 ^ (2 - 1))\<bar>"
    by (simp add: sample_policy_def)
  from c2 run2 have s: "flaky 3 3 = Inr 3" by simp
  from fails m run d1 d2 run2 s show ?thesis by blast
qed

end
